theory Spec2Isabelle
  imports Main "HOL-Library.Sublist"
begin

section \<open>Python values\<close>

text \<open>
  The policy data comes from YAML: the values stored under the keys of an entry are
  scalars. Dictionaries with string keys are maps.
\<close>

datatype pyval = PNone | PBool bool | PInt int | PStr string

type_synonym dict = "string \<rightharpoonup> pyval"

text \<open>Truth value testing: \<^verbatim>\<open>None\<close>, \<^verbatim>\<open>False\<close>, \<^verbatim>\<open>0\<close> and \<^verbatim>\<open>''\<close> are false.\<close>

fun truthy :: "pyval \<Rightarrow> bool" where
  "truthy PNone = False"
| "truthy (PBool b) = b"
| "truthy (PInt i) = (i \<noteq> 0)"
| "truthy (PStr s) = (s \<noteq> [])"

text \<open>\<^verbatim>\<open>bool\<close> is a subclass of \<^verbatim>\<open>int\<close>: \<^verbatim>\<open>True\<close> is 1 and \<^verbatim>\<open>False\<close> is 0.\<close>

fun py_num :: "pyval \<Rightarrow> int option" where
  "py_num (PInt i) = Some i"
| "py_num (PBool b) = Some (if b then 1 else 0)"
| "py_num PNone = None"
| "py_num (PStr s) = None"

text \<open>\<^verbatim>\<open>==\<close>: numbers compare by value, everything else structurally.\<close>

definition py_eq :: "pyval \<Rightarrow> pyval \<Rightarrow> bool" where
  "py_eq v w =
     (case (py_num v, py_num w) of
        (Some i, Some j) \<Rightarrow> i = j
      | (None, None) \<Rightarrow> v = w
      | _ \<Rightarrow> False)"

text \<open>
  Python 2 orders values of different types: \<^verbatim>\<open>None\<close> is smaller than every number
  and every number is smaller than every string. The right operand below is always the
  integer day count of the validity window.
\<close>

definition py_ge_int :: "pyval \<Rightarrow> int \<Rightarrow> bool" where
  "py_ge_int v n =
     (case py_num v of
        Some i \<Rightarrow> i \<ge> n
      | None \<Rightarrow> (case v of PStr s \<Rightarrow> True | _ \<Rightarrow> False))"

definition py_le_int :: "pyval \<Rightarrow> int \<Rightarrow> bool" where
  "py_le_int v n =
     (case py_num v of
        Some i \<Rightarrow> i \<le> n
      | None \<Rightarrow> (case v of PStr s \<Rightarrow> False | _ \<Rightarrow> True))"

subsection \<open>\<^verbatim>\<open>'{0}'.format(v)\<close>\<close>

definition digit_char :: "nat \<Rightarrow> char" where
  "digit_char n = ''0123456789'' ! n"

function str_nat :: "nat \<Rightarrow> string" where
  "str_nat n = (if n < 10 then [digit_char n] else str_nat (n div 10) @ [digit_char (n mod 10)])"
  by pat_completeness auto
termination
  by (relation "measure id") auto

declare str_nat.simps [simp del]

definition str_int :: "int \<Rightarrow> string" where
  "str_int i = (if i < 0 then CHR ''-'' # str_nat (nat (- i)) else str_nat (nat i))"

fun format :: "pyval \<Rightarrow> string" where
  "format PNone = ''None''"
| "format (PBool b) = (if b then ''True'' else ''False'')"
| "format (PInt i) = str_int i"
| "format (PStr s) = s"

text \<open>Reading a string of decimal digits back, to state what \<open>str_nat\<close> writes.\<close>

definition digit_value :: "char \<Rightarrow> nat" where
  "digit_value c = of_char c - 48"

definition decimal :: "string \<Rightarrow> nat" where
  "decimal s = foldl (\<lambda>a c. 10 * a + digit_value c) 0 s"

section \<open>Exceptions\<close>

datatype exn =
    IOError | SocketError | SocketTimeout | SSLError
  | CryptoError | ValueError | TypeError | KeyError | KeyboardInterrupt

text \<open>
  What each \<^verbatim>\<open>except\<close> clause of the module catches. \<^verbatim>\<open>socket.error\<close>,
  \<^verbatim>\<open>socket.timeout\<close> and \<^verbatim>\<open>ssl.SSLError\<close> derive from \<^verbatim>\<open>IOError\<close>;
  \<^verbatim>\<open>KeyboardInterrupt\<close> does not derive from \<^verbatim>\<open>Exception\<close>.
\<close>

definition is_Exception :: "exn \<Rightarrow> bool" where
  "is_Exception e = (e \<noteq> KeyboardInterrupt)"

definition is_IOError :: "exn \<Rightarrow> bool" where
  "is_IOError e = (e = IOError \<or> e = SocketError \<or> e = SocketTimeout \<or> e = SSLError)"

definition is_CryptoError :: "exn \<Rightarrow> bool" where
  "is_CryptoError e = (e = CryptoError)"

section \<open>Certificates, dates and the environment\<close>

text \<open>
  An \<^verbatim>\<open>OpenSSL.crypto.X509\<close> object, as far as the module reads it: the answer of
  \<^verbatim>\<open>has_expired()\<close>, which the library computes and the module takes as it is, and
  the two ASN.1 time strings. An object of this class is always true in a condition, so
  \<^verbatim>\<open>not x509\<close> holds for \<^verbatim>\<open>None\<close> only.
\<close>

record x509 =
  has_expired :: bool
  get_notAfter :: string
  get_notBefore :: string

text \<open>The first six fields of a \<^verbatim>\<open>time.struct_time\<close>.\<close>

record struct_time =
  tm_year :: int
  tm_mon :: int
  tm_mday :: int
  tm_hour :: int
  tm_min :: int
  tm_sec :: int

record datetime =
  year :: int
  month :: int
  day :: int
  hour :: int
  minute :: int
  second :: int
  microsecond :: int

record timedelta =
  days :: int
  seconds :: int
  microseconds :: int

definition is_leap :: "int \<Rightarrow> bool" where
  "is_leap y = (y mod 4 = 0 \<and> (y mod 100 \<noteq> 0 \<or> y mod 400 = 0))"

definition days_before_year :: "int \<Rightarrow> int" where
  "days_before_year yr = (let y = yr - 1 in y * 365 + y div 4 - y div 100 + y div 400)"

definition days_in_month :: "int \<Rightarrow> int \<Rightarrow> int" where
  "days_in_month y m =
     (if m = 2 \<and> is_leap y then 29
      else [31, 28, 31, 30, 31, 30, 31, 31, 30, 31, 30, 31] ! nat (m - 1))"

definition days_before_month :: "int \<Rightarrow> int \<Rightarrow> int" where
  "days_before_month y m =
     [0, 31, 59, 90, 120, 151, 181, 212, 243, 273, 304, 334] ! nat (m - 1)
       + (if m > 2 \<and> is_leap y then 1 else 0)"

definition toordinal :: "datetime \<Rightarrow> int" where
  "toordinal d = days_before_year (year d) + days_before_month (year d) (month d) + day d"

text \<open>
  \<^verbatim>\<open>datetime.datetime(y, m, d, H, M, S)\<close>: the constructor checks every field and
  raises \<^verbatim>\<open>ValueError\<close> otherwise.
\<close>

definition datetime_new :: "int \<Rightarrow> int \<Rightarrow> int \<Rightarrow> int \<Rightarrow> int \<Rightarrow> int \<Rightarrow> exn + datetime" where
  "datetime_new y m d H M S =
     (if 1 \<le> y \<and> y \<le> 9999 \<and> 1 \<le> m \<and> m \<le> 12 \<and> 1 \<le> d \<and> d \<le> days_in_month y m
         \<and> 0 \<le> H \<and> H \<le> 23 \<and> 0 \<le> M \<and> M \<le> 59 \<and> 0 \<le> S \<and> S \<le> 59
      then Inr \<lparr>year = y, month = m, day = d, hour = H, minute = M, second = S, microsecond = 0\<rparr>
      else Inl ValueError)"

text \<open>
  A \<^verbatim>\<open>timedelta\<close> is kept normalised: the microseconds carry into the seconds and the
  seconds into the days, each with floor division.
\<close>

definition timedelta_new :: "int \<Rightarrow> int \<Rightarrow> int \<Rightarrow> timedelta" where
  "timedelta_new d s us =
     (let s1 = s + us div 1000000;
          us1 = us mod 1000000;
          d1 = d + s1 div 86400;
          s2 = s1 mod 86400
      in \<lparr>days = d1, seconds = s2, microseconds = us1\<rparr>)"

definition datetime_sub :: "datetime \<Rightarrow> datetime \<Rightarrow> timedelta" where
  "datetime_sub a b =
     timedelta_new (toordinal a - toordinal b)
       ((hour a - hour b) * 3600 + (minute a - minute b) * 60 + (second a - second b))
       (microsecond a - microsecond b)"

text \<open>
  What the module takes from its libraries and from the outside world. The parser
  \<^verbatim>\<open>time.strptime(s, '%Y%m%d%H%M%SZ')\<close>, the clock, the glob matcher, the network, the
  file system and the PEM decoder are parameters: each either returns or raises.
  Opening a file gives the outcome of the later \<^verbatim>\<open>read()\<close>. The clock and the outside
  world stand still during a run: the same call gives the same answer.
\<close>

record env =
  strptime :: "string \<Rightarrow> exn + struct_time"
  utcnow :: datetime
  fnmatch :: "pyval \<Rightarrow> string \<Rightarrow> exn + bool"
  get_server_certificate :: "pyval \<Rightarrow> pyval \<Rightarrow> exn + string"
  open_file :: "pyval \<Rightarrow> exn + (exn + string)"
  load_certificate :: "string \<Rightarrow> exn + x509"

section \<open>The validity window\<close>

record stats =
  stats_notAfter :: int
  stats_notBefore :: int

definition datetime_of :: "struct_time \<Rightarrow> exn + datetime" where
  "datetime_of t = datetime_new (tm_year t) (tm_mon t) (tm_mday t) (tm_hour t) (tm_min t) (tm_sec t)"

definition get_x509_days_left :: "env \<Rightarrow> x509 \<Rightarrow> exn + stats" where
  "get_x509_days_left E c =
     (let current_datetime = utcnow E in
      (case strptime E (get_notAfter c) of
         Inl e \<Rightarrow> Inl e
       | Inr notAfter \<Rightarrow>
          (case strptime E (get_notBefore c) of
             Inl e \<Rightarrow> Inl e
           | Inr notBefore \<Rightarrow>
              (case datetime_of notAfter of
                 Inl e \<Rightarrow> Inl e
               | Inr a \<Rightarrow>
                  (case datetime_of notBefore of
                     Inl e \<Rightarrow> Inl e
                   | Inr b \<Rightarrow>
                       Inr \<lparr>stats_notAfter = days (datetime_sub a current_datetime),
                            stats_notBefore = days (datetime_sub b current_datetime)\<rparr>)))))"

section \<open>The policy evaluator\<close>

definition check_x509 :: "env \<Rightarrow> x509 option \<Rightarrow> pyval \<Rightarrow> pyval \<Rightarrow> pyval \<Rightarrow> exn + (bool \<times> string)" where
  "check_x509 E x notBefore notAfter fail_if_notBefore =
     (case x of
        None \<Rightarrow> Inr (False, ''No certificate to be checked'')
      | Some c \<Rightarrow>
          if has_expired c then Inr (False, ''The certificate is expired'')
          else
            (case get_x509_days_left E c of
               Inl e \<Rightarrow> Inl e
             | Inr st \<Rightarrow>
                 if py_ge_int notAfter (stats_notAfter st)
                 then Inr (False, ''The certificate will expire in less then '' @ format notAfter @ '' days'')
                 else if py_le_int notBefore (stats_notBefore st)
                 then
                   (if py_eq notBefore (PInt 0) \<and> truthy fail_if_notBefore
                    then Inr (False, ''The certificate is not yet valid (''
                                      @ format (PInt (stats_notBefore st))
                                      @ '' days left until it will be valid)'')
                    else Inr (False, ''The certificate will be valid in more then ''
                                      @ format notBefore @ '' days''))
                 else Inr (True, '''')))"

section \<open>The certificate loader\<close>

text \<open>
  The loaders are the only places where the module touches the network or the file
  system. Each returns the calls it made next to its outcome: a certificate, the absent
  certificate \<open>None\<close>, or an exception that no \<^verbatim>\<open>except\<close> clause caught.
\<close>

datatype io_event = Connect pyval pyval | OpenFile pyval

definition load_x509_from_endpoint :: "env \<Rightarrow> pyval \<Rightarrow> pyval \<Rightarrow> io_event list \<times> (exn + x509 option)" where
  "load_x509_from_endpoint E server port =
     ([Connect server port],
      (let cert = (case get_server_certificate E server port of
                     Inl e \<Rightarrow> if is_Exception e then Inr None else Inl e
                   | Inr pem \<Rightarrow> Inr (Some pem))
       in case cert of
            Inl e \<Rightarrow> Inl e
          | Inr None \<Rightarrow> Inr None
          | Inr (Some pem) \<Rightarrow>
              if pem = [] then Inr None
              else (case load_certificate E pem of
                      Inl e \<Rightarrow> if is_CryptoError e then Inr None else Inl e
                    | Inr x \<Rightarrow> Inr (Some x))))"

definition load_x509_from_file :: "env \<Rightarrow> pyval \<Rightarrow> io_event list \<times> (exn + x509 option)" where
  "load_x509_from_file E cert_file_path =
     ([OpenFile cert_file_path],
      (case open_file E cert_file_path of
         Inl e \<Rightarrow> if is_IOError e then Inr None else Inl e
       | Inr cert_file \<Rightarrow>
           (case cert_file of
              Inl e \<Rightarrow> Inl e
            | Inr contents \<Rightarrow>
                (case load_certificate E contents of
                   Inl e \<Rightarrow> if is_CryptoError e then Inr None else Inl e
                 | Inr x \<Rightarrow> Inr (Some x)))))"

definition load_x509 :: "env \<Rightarrow> pyval \<Rightarrow> pyval \<Rightarrow> bool \<Rightarrow> io_event list \<times> (exn + x509 option)" where
  "load_x509 E source port from_file =
     (if \<not> from_file then load_x509_from_endpoint E source port
      else load_x509_from_file E source)"

section \<open>The policy data\<close>

text \<open>
  The \<^verbatim>\<open>data\<close> dictionary of an entry is an object that the caller's \<^verbatim>\<open>data_list\<close> and the
  module's merged view share, and the module pops a key from it: these dictionaries
  live in a store, and an entry holds the address of its own. The other keys of an entry
  (\<^verbatim>\<open>description\<close> and so on) are only read.
\<close>

type_synonym addr = nat

type_synonym heap = "addr \<Rightarrow> dict"

record audit_data =
  ad_data :: "addr option"
  ad_other :: dict

text \<open>
  A YAML document: under a top key (here \<^verbatim>\<open>openssl\<close>) the entries with their ids, in
  the order in which the dictionary yields them.
\<close>

type_synonym yaml = "string \<rightharpoonup> (string \<times> audit_data) list"

definition dict_get :: "dict \<Rightarrow> string \<Rightarrow> pyval \<Rightarrow> pyval" where
  "dict_get d k dflt = (case d k of None \<Rightarrow> dflt | Some v \<Rightarrow> v)"

definition merge_yaml :: "yaml \<Rightarrow> yaml \<Rightarrow> yaml" where
  "merge_yaml ret dat =
     (let ret1 = (if ret ''openssl'' = None then ret(''openssl'' \<mapsto> []) else ret);
          old = (case ret1 ''openssl'' of None \<Rightarrow> [] | Some l \<Rightarrow> l);
          new = (case dat ''openssl'' of None \<Rightarrow> [] | Some d \<Rightarrow> d)
      in ret1(''openssl'' \<mapsto> old @ new))"

text \<open>
  \<^verbatim>\<open>__tags__\<close>: the records of each tag. A key is found by \<^verbatim>\<open>==\<close>, and a new key
  goes to the end: the loop over the tags meets them in the order of their first
  insertion, the records of one tag in the order of the entries. (Python 2 yields the
  keys of a dictionary in an order of its own choice; the statements below that speak
  of an order speak of the order of a bucket.)
\<close>

type_synonym tags = "(pyval \<times> dict list) list"

fun tags_append :: "pyval \<Rightarrow> dict \<Rightarrow> tags \<Rightarrow> tags" where
  "tags_append t fd [] = [(t, [fd])]"
| "tags_append t fd ((k, ds) # rest) =
     (if py_eq k t then (k, ds @ [fd]) # rest else (k, ds) # tags_append t fd rest)"

fun get_tags_loop :: "heap \<Rightarrow> (string \<times> audit_data) list \<Rightarrow> tags \<Rightarrow> exn + (heap \<times> tags)" where
  "get_tags_loop h [] ret = Inr (h, ret)"
| "get_tags_loop h ((audit_id, audit_data) # rest) ret =
     (case ad_data audit_data of
        None \<Rightarrow> Inl KeyError
      | Some a \<Rightarrow>
          (case h a ''tag'' of
             None \<Rightarrow> Inl KeyError
           | Some t \<Rightarrow>
               (let tags_dict = (h a)(''tag'' := None);
                    h1 = h(a := tags_dict);
                    formatted_data =
                      ((tags_dict(''tag'' \<mapsto> t, ''module'' \<mapsto> PStr ''openssl'') ++ ad_other audit_data)
                         (''data'' := None))
                in get_tags_loop h1 rest (tags_append t formatted_data ret))))"

definition get_tags :: "heap \<Rightarrow> yaml \<Rightarrow> exn + (heap \<times> tags)" where
  "get_tags h dat = get_tags_loop h (case dat ''openssl'' of None \<Rightarrow> [] | Some l \<Rightarrow> l) []"

section \<open>The audit\<close>

text \<open>
  The three buckets while the entries are processed, and the calls the loaders have
  made so far.
\<close>

record run =
  Success :: "dict list"
  Failure :: "dict list"
  Controlled :: "dict list"
  trace :: "io_event list"

text \<open>The body of the loop over the records of a tag.\<close>

definition audit_entry :: "env \<Rightarrow> dict \<Rightarrow> run \<Rightarrow> exn + run" where
  "audit_entry E tag_data ret =
     (if ''control'' \<in> dom tag_data then Inr (ret\<lparr>Controlled := Controlled ret @ [tag_data]\<rparr>)
      else
        (let endpoint = dict_get tag_data ''endpoint'' PNone;
             file = dict_get tag_data ''file'' PNone;
             notAfter = dict_get tag_data ''notAfter'' (PInt 0);
             notBefore = dict_get tag_data ''notBefore'' (PInt 0);
             port = dict_get tag_data ''port'' (PInt 443);
             fail_if_notBefore = dict_get tag_data ''fail_if_not_before'' (PBool False)
         in
           if \<not> truthy endpoint \<and> \<not> truthy file
           then Inr (ret\<lparr>Failure := Failure ret
                        @ [tag_data(''reason'' \<mapsto> PStr ''No certificate to be checked'')]\<rparr>)
           else if truthy endpoint \<and> truthy file
           then Inr (ret\<lparr>Failure := Failure ret
                        @ [tag_data(''reason'' \<mapsto> PStr ''Only one certificate per check is allowed'')]\<rparr>)
           else
             (case (if truthy endpoint then load_x509 E endpoint port False
                    else load_x509 E file (PInt 443) True) of
                (io, Inl e) \<Rightarrow> Inl e
              | (io, Inr x) \<Rightarrow>
                  (case check_x509 E x notBefore notAfter fail_if_notBefore of
                     Inl e \<Rightarrow> Inl e
                   | Inr (passed, failing_reason) \<Rightarrow>
                       if passed
                       then Inr (ret\<lparr>Success := Success ret @ [tag_data],
                                     trace := trace ret @ io\<rparr>)
                       else Inr (ret\<lparr>Failure := Failure ret
                                        @ [tag_data(''reason'' \<mapsto> PStr failing_reason)],
                                     trace := trace ret @ io\<rparr>)))))"

fun audit_tag_data :: "env \<Rightarrow> dict list \<Rightarrow> run \<Rightarrow> exn + run" where
  "audit_tag_data E [] ret = Inr ret"
| "audit_tag_data E (tag_data # rest) ret =
     (case audit_entry E tag_data ret of
        Inl e \<Rightarrow> Inl e
      | Inr ret1 \<Rightarrow> audit_tag_data E rest ret1)"

fun audit_tags :: "env \<Rightarrow> string \<Rightarrow> tags \<Rightarrow> run \<Rightarrow> exn + run" where
  "audit_tags E pat [] ret = Inr ret"
| "audit_tags E pat ((t, tds) # rest) ret =
     (case fnmatch E t pat of
        Inl e \<Rightarrow> Inl e
      | Inr m \<Rightarrow>
          if m
          then (case audit_tag_data E tds ret of
                  Inl e \<Rightarrow> Inl e
                | Inr ret1 \<Rightarrow> audit_tags E pat rest ret1)
          else audit_tags E pat rest ret)"

text \<open>
  What a bucket of the result holds: the whole record of an entry, or in the short
  report \<^verbatim>\<open>{tag: description}\<close>, or for a controlled entry
  \<^verbatim>\<open>{tag: {'description': description, 'control': control}}\<close>.
\<close>

datatype item = Full dict | Brief pyval pyval | BriefControl pyval pyval pyval

fun collapse :: "dict list \<Rightarrow> (pyval \<times> pyval) set \<Rightarrow> item list \<Rightarrow> exn + item list" where
  "collapse [] tags_descriptions acc = Inr acc"
| "collapse (tag_data # rest) tags_descriptions acc =
     (case tag_data ''tag'' of
        None \<Rightarrow> Inl KeyError
      | Some t \<Rightarrow>
          (let description = dict_get tag_data ''description'' PNone in
           if \<not> (\<exists>(t', d') \<in> tags_descriptions. py_eq t' t \<and> py_eq d' description)
           then collapse rest (insert (t, description) tags_descriptions) (acc @ [Brief t description])
           else collapse rest tags_descriptions acc))"

fun collapse_controlled ::
  "dict list \<Rightarrow> (pyval \<times> pyval \<times> pyval) set \<Rightarrow> item list \<Rightarrow> exn + item list" where
  "collapse_controlled [] control_reasons acc = Inr acc"
| "collapse_controlled (tag_data # rest) control_reasons acc =
     (case tag_data ''tag'' of
        None \<Rightarrow> Inl KeyError
      | Some t \<Rightarrow>
          (let description = dict_get tag_data ''description'' PNone;
               control_reason = dict_get tag_data ''control'' (PStr [])
           in
           if \<not> (\<exists>(t', d', c') \<in> control_reasons.
                    py_eq t' t \<and> py_eq d' description \<and> py_eq c' control_reason)
           then collapse_controlled rest (insert (t, description, control_reason) control_reasons)
                  (acc @ [BriefControl t description control_reason])
           else collapse_controlled rest control_reasons acc))"

text \<open>
  The function \<^verbatim>\<open>audit\<close> in its two halves: the loop over the entries, and the report
  that is returned. The result is the dictionary \<^verbatim>\<open>ret\<close>, next to the store as the run
  leaves it and the calls the loaders made.
\<close>

definition audit_run :: "env \<Rightarrow> heap \<Rightarrow> yaml list \<Rightarrow> string \<Rightarrow> exn + (heap \<times> run)" where
  "audit_run E h data_list pat =
     (let dat = foldl merge_yaml Map.empty data_list in
      case get_tags h dat of
        Inl e \<Rightarrow> Inl e
      | Inr (h1, tgs) \<Rightarrow>
          (case audit_tags E pat tgs \<lparr>Success = [], Failure = [], Controlled = [], trace = []\<rparr> of
             Inl e \<Rightarrow> Inl e
           | Inr ret \<Rightarrow> Inr (h1, ret)))"

definition pop_empty_controlled :: "(string \<rightharpoonup> item list) \<Rightarrow> (string \<rightharpoonup> item list)" where
  "pop_empty_controlled ret =
     (if ret ''Controlled'' = Some [] then ret(''Controlled'' := None) else ret)"

definition audit_report :: "bool \<Rightarrow> run \<Rightarrow> exn + (string \<rightharpoonup> item list)" where
  "audit_report verbose ret =
     (if \<not> verbose
      then
        (case collapse (Failure ret) {} [] of
           Inl e \<Rightarrow> Inl e
         | Inr failure \<Rightarrow>
             (case collapse (Success ret) {} [] of
                Inl e \<Rightarrow> Inl e
              | Inr success \<Rightarrow>
                  (case collapse_controlled (Controlled ret) {} [] of
                     Inl e \<Rightarrow> Inl e
                   | Inr controlled \<Rightarrow>
                       Inr (pop_empty_controlled
                              [''Success'' \<mapsto> success, ''Failure'' \<mapsto> failure,
                               ''Controlled'' \<mapsto> controlled]))))
      else Inr (pop_empty_controlled
                  [''Success'' \<mapsto> map Full (Success ret), ''Failure'' \<mapsto> map Full (Failure ret),
                   ''Controlled'' \<mapsto> map Full (Controlled ret)]))"

definition audit ::
  "env \<Rightarrow> heap \<Rightarrow> yaml list \<Rightarrow> string \<Rightarrow> bool \<Rightarrow> exn + (heap \<times> (string \<rightharpoonup> item list) \<times> io_event list)" where
  "audit E h data_list pat verbose =
     (case audit_run E h data_list pat of
        Inl e \<Rightarrow> Inl e
      | Inr (h1, ret) \<Rightarrow>
          (case audit_report verbose ret of
             Inl e \<Rightarrow> Inl e
           | Inr res \<Rightarrow> Inr (h1, res, trace ret)))"

section \<open>Reference notions and example data\<close>

text \<open>
  The instant a naive UTC \<^verbatim>\<open>datetime\<close> denotes, in microseconds since the start of
  day 0 of the proleptic Gregorian calendar.
\<close>

definition instant_us :: "datetime \<Rightarrow> int" where
  "instant_us d =
     (toordinal d * 86400 + hour d * 3600 + minute d * 60 + second d) * 1000000 + microsecond d"

text \<open>
  Three certificates and an environment to run the module in. \<open>cert_a\<close> is valid since
  2020 and until 2030, \<open>cert_b\<close> becomes valid in 2026, \<open>cert_c\<close> reports itself as
  expired and carries a start date that does not parse. The clock stands at
  2025-06-15 12:30:00.25.
\<close>

definition cert_a :: x509 where
  "cert_a = \<lparr>has_expired = False, get_notAfter = ''20300101000000Z'',
             get_notBefore = ''20200301000000Z''\<rparr>"

definition cert_b :: x509 where
  "cert_b = \<lparr>has_expired = False, get_notAfter = ''20300101000000Z'',
             get_notBefore = ''20260101000000Z''\<rparr>"

definition cert_c :: x509 where
  "cert_c = \<lparr>has_expired = True, get_notAfter = ''20200301000000Z'',
             get_notBefore = ''not a date''\<rparr>"

definition example_strptime :: "string \<Rightarrow> exn + struct_time" where
  "example_strptime s =
     (if s = ''20300101000000Z''
      then Inr \<lparr>tm_year = 2030, tm_mon = 1, tm_mday = 1, tm_hour = 0, tm_min = 0, tm_sec = 0\<rparr>
      else if s = ''20200301000000Z''
      then Inr \<lparr>tm_year = 2020, tm_mon = 3, tm_mday = 1, tm_hour = 0, tm_min = 0, tm_sec = 0\<rparr>
      else if s = ''20260101000000Z''
      then Inr \<lparr>tm_year = 2026, tm_mon = 1, tm_mday = 1, tm_hour = 0, tm_min = 0, tm_sec = 0\<rparr>
      else Inl ValueError)"

definition example_env :: env where
  "example_env =
     \<lparr>strptime = example_strptime,
      utcnow = \<lparr>year = 2025, month = 6, day = 15, hour = 12, minute = 30, second = 0,
                microsecond = 250000\<rparr>,
      fnmatch = (\<lambda>t pat. case t of PStr s \<Rightarrow> Inr (pat = ''*'' \<or> s = pat) | _ \<Rightarrow> Inl TypeError),
      get_server_certificate =
        (\<lambda>server port. if server = PStr ''www.example.com'' \<and> port = PInt 443 then Inr ''PEM-A''
                        else Inl SocketError),
      open_file = (\<lambda>path. if path = PStr ''/etc/ssl/b.pem'' then Inr (Inr ''PEM-B'') else Inl IOError),
      load_certificate =
        (\<lambda>pem. if pem = ''PEM-A'' then Inr cert_a else if pem = ''PEM-B'' then Inr cert_b
                else Inl CryptoError)\<rparr>"

text \<open>
  The acquisition failures: the connection raises (refused, unreachable, timed out, a
  TLS error), the server's answer does not decode, the file cannot be opened, or its
  contents do not parse as PEM.
\<close>

definition endpoint_fails :: "env \<Rightarrow> pyval \<Rightarrow> pyval \<Rightarrow> bool" where
  "endpoint_fails E server port =
     (case get_server_certificate E server port of
        Inl e \<Rightarrow> is_Exception e
      | Inr pem \<Rightarrow> pem \<noteq> [] \<and> (case load_certificate E pem of Inl e \<Rightarrow> is_CryptoError e | Inr x \<Rightarrow> False))"

definition file_fails :: "env \<Rightarrow> pyval \<Rightarrow> bool" where
  "file_fails E path =
     (case open_file E path of
        Inl e \<Rightarrow> is_IOError e
      | Inr (Inl e) \<Rightarrow> False
      | Inr (Inr contents) \<Rightarrow>
          (case load_certificate E contents of Inl e \<Rightarrow> is_CryptoError e | Inr x \<Rightarrow> False))"

text \<open>Records of entries as the loop over the tags meets them, and the empty buckets.\<close>

definition empty_run :: run where
  "empty_run = \<lparr>Success = [], Failure = [], Controlled = [], trace = []\<rparr>"

definition td_unreachable :: dict where
  "td_unreachable = [''tag'' \<mapsto> PStr ''CERT-002'', ''module'' \<mapsto> PStr ''openssl'',
                     ''endpoint'' \<mapsto> PStr ''unreachable.example.com'', ''port'' \<mapsto> PInt 8443]"

definition td_missing :: dict where
  "td_missing = [''tag'' \<mapsto> PStr ''CERT-003'', ''module'' \<mapsto> PStr ''openssl'',
                 ''file'' \<mapsto> PStr ''/nonexistent.pem'']"

definition td_neither :: dict where
  "td_neither = [''tag'' \<mapsto> PStr ''CERT-004'', ''module'' \<mapsto> PStr ''openssl'',
                 ''endpoint'' \<mapsto> PStr [], ''notAfter'' \<mapsto> PInt 15]"

definition td_both :: dict where
  "td_both = [''tag'' \<mapsto> PStr ''CERT-005'', ''module'' \<mapsto> PStr ''openssl'',
              ''endpoint'' \<mapsto> PStr ''www.example.com'', ''file'' \<mapsto> PStr ''/etc/ssl/b.pem'']"

definition td_controlled :: dict where
  "td_controlled = [''tag'' \<mapsto> PStr ''CERT-006'', ''module'' \<mapsto> PStr ''openssl'',
                    ''endpoint'' \<mapsto> PStr ''www.example.com'', ''file'' \<mapsto> PStr ''/etc/ssl/b.pem'',
                    ''control'' \<mapsto> PStr ''accepted risk'']"

text \<open>
  The entries of a \<^verbatim>\<open>data_list\<close> in the order in which the module merges them, and the
  addresses of their \<^verbatim>\<open>data\<close> dictionaries.
\<close>

definition section_of :: "yaml \<Rightarrow> (string \<times> audit_data) list" where
  "section_of d = (case d ''openssl'' of None \<Rightarrow> [] | Some l \<Rightarrow> l)"

definition entries_of :: "yaml list \<Rightarrow> (string \<times> audit_data) list" where
  "entries_of data_list = concat (map section_of data_list)"

fun addrs_of :: "(string \<times> audit_data) list \<Rightarrow> addr list" where
  "addrs_of [] = []"
| "addrs_of ((k, ad) # es) = (case ad_data ad of None \<Rightarrow> addrs_of es | Some a \<Rightarrow> a # addrs_of es)"

definition entry_addrs :: "yaml list \<Rightarrow> addr list" where
  "entry_addrs data_list = addrs_of (entries_of data_list)"

text \<open>Predicates on the records of \<^verbatim>\<open>__tags__\<close> and of the buckets.\<close>

definition has_key :: "string \<Rightarrow> dict \<Rightarrow> bool" where
  "has_key k d = (k \<in> dom d)"

definition all_records :: "(dict \<Rightarrow> bool) \<Rightarrow> tags \<Rightarrow> bool" where
  "all_records P tgs = list_all (\<lambda>(k, ds). list_all P ds) tgs"

definition run_all :: "(dict \<Rightarrow> bool) \<Rightarrow> run \<Rightarrow> bool" where
  "run_all P ret = ((\<forall>d \<in> set (Success ret). P d) \<and> (\<forall>d \<in> set (Failure ret). P d)
                     \<and> (\<forall>d \<in> set (Controlled ret). P d))"

text \<open>
  Deduplication as the specification words it: of the elements with the same key the
  first one seen stays, and the order of the remaining elements is kept. Two values are
  the same member of a Python set when they are \<^verbatim>\<open>==\<close>, that is when their
  canonical forms \<open>py_key\<close> agree.
\<close>

definition py_key :: "pyval \<Rightarrow> pyval" where
  "py_key v = (case py_num v of Some i \<Rightarrow> PInt i | None \<Rightarrow> v)"

fun first_seen :: "('a \<Rightarrow> 'k) \<Rightarrow> 'a list \<Rightarrow> 'a list" where
  "first_seen f [] = []"
| "first_seen f (x # xs) = x # first_seen f (filter (\<lambda>y. f y \<noteq> f x) xs)"

definition tag_description :: "dict \<Rightarrow> pyval \<times> pyval" where
  "tag_description td = (dict_get td ''tag'' PNone, dict_get td ''description'' PNone)"

definition tag_description_control :: "dict \<Rightarrow> pyval \<times> pyval \<times> pyval" where
  "tag_description_control td =
     (dict_get td ''tag'' PNone, dict_get td ''description'' PNone, dict_get td ''control'' (PStr []))"

definition pair_key :: "pyval \<times> pyval \<Rightarrow> pyval \<times> pyval" where
  "pair_key p = (py_key (fst p), py_key (snd p))"

definition triple_key :: "pyval \<times> pyval \<times> pyval \<Rightarrow> pyval \<times> pyval \<times> pyval" where
  "triple_key p = (py_key (fst p), py_key (fst (snd p)), py_key (snd (snd p)))"

definition brief :: "pyval \<times> pyval \<Rightarrow> item" where
  "brief p = Brief (fst p) (snd p)"

definition brief_control :: "pyval \<times> pyval \<times> pyval \<Rightarrow> item" where
  "brief_control p = BriefControl (fst p) (fst (snd p)) (snd (snd p))"

text \<open>
  A policy of three entries in two documents: the first passes, the other two share
  tag and description and both fail to acquire a certificate.
\<close>

definition example_heap :: heap where
  "example_heap =
     (\<lambda>a. Map.empty)
       (0 := [''tag'' \<mapsto> PStr ''CERT-001'', ''endpoint'' \<mapsto> PStr ''www.example.com'',
              ''notAfter'' \<mapsto> PInt 15],
        1 := [''tag'' \<mapsto> PStr ''CERT-002'', ''endpoint'' \<mapsto> PStr ''unreachable.example.com'',
              ''port'' \<mapsto> PInt 8443],
        2 := [''tag'' \<mapsto> PStr ''CERT-002'', ''file'' \<mapsto> PStr ''/nonexistent.pem''])"

definition example_data :: "yaml list" where
  "example_data =
     [[''openssl'' \<mapsto>
         [(''example'', \<lparr>ad_data = Some 0,
                         ad_other = [''description'' \<mapsto> PStr ''example certificate'']\<rparr>),
          (''backend'', \<lparr>ad_data = Some 1,
                         ad_other = [''description'' \<mapsto> PStr ''backend certificate'']\<rparr>)]],
      [''openssl'' \<mapsto>
         [(''backend_file'', \<lparr>ad_data = Some 2,
                              ad_other = [''description'' \<mapsto> PStr ''backend certificate'']\<rparr>)]]]"

section \<open>Properties of the validity window\<close>

lemmas example_simps = example_env_def example_strptime_def cert_a_def cert_b_def cert_c_def
  get_x509_days_left_def datetime_of_def datetime_new_def days_in_month_def is_leap_def
  datetime_sub_def timedelta_new_def toordinal_def days_before_year_def days_before_month_def

lemmas str_int_simps = str_int_def str_nat.simps digit_char_def

text \<open>\<open>str_nat\<close> writes the decimal digits of its argument.\<close>

lemma digit_value_digit_char: "n < 10 \<Longrightarrow> digit_value (digit_char n) = n"
proof -
  assume "n < 10"
  then have "n = 0 \<or> n = 1 \<or> n = 2 \<or> n = 3 \<or> n = 4 \<or> n = 5 \<or> n = 6 \<or> n = 7
    \<or> n = 8 \<or> n = 9" by arith
  then show ?thesis by (elim disjE) (simp_all add: digit_value_def digit_char_def)
qed

lemma decimal_str_nat: "decimal (str_nat n) = n"
proof (induction n rule: str_nat.induct)
  case (1 n)
  show ?case
  proof (cases "n < 10")
    case True
    then show ?thesis by (simp add: str_nat.simps [of n] decimal_def digit_value_digit_char)
  next
    case False
    with 1 have "decimal (str_nat (n div 10)) = n div 10" by simp
    with False show ?thesis
      by (simp add: str_nat.simps [of n] decimal_def digit_value_digit_char)
  qed
qed

lemma example_days_a:
  "get_x509_days_left example_env cert_a = Inr \<lparr>stats_notAfter = 1660, stats_notBefore = - 1933\<rparr>"
  by (simp add: example_simps Let_def)

lemma example_days_b:
  "get_x509_days_left example_env cert_b = Inr \<lparr>stats_notAfter = 1660, stats_notBefore = 199\<rparr>"
  by (simp add: example_simps Let_def)

lemma example_days_c: "get_x509_days_left example_env cert_c = Inl ValueError"
  by (simp add: example_simps Let_def)

lemma days_timedelta_new:
  "days (timedelta_new d s us) = ((d * 86400 + s) * 1000000 + us) div 86400000000"
proof -
  have "((d * 86400 + s) * 1000000 + us) div 86400000000
          = (((d * 86400 + s) * 1000000 + us) div 1000000) div 86400"
    by (simp add: zdiv_zmult2_eq)
  also have "((d * 86400 + s) * 1000000 + us) div 1000000 = d * 86400 + s + us div 1000000"
    by simp
  also have "(d * 86400 + s + us div 1000000) div 86400 = d + (s + us div 1000000) div 86400"
    by simp
  finally show ?thesis by (simp add: timedelta_new_def Let_def)
qed

lemma days_datetime_sub:
  "days (datetime_sub a b) = (instant_us a - instant_us b) div 86400000000"
  unfolding datetime_sub_def days_timedelta_new instant_us_def
  by (simp add: algebra_simps)

text \<open>
  C6. When both time strings of the certificate parse and name valid dates, the
  calculator returns the pair of day counts, each the floor of the distance from the
  current instant to the certificate's instant in whole days (86400000000 microseconds).
  The values are signed integers, and the result carries nothing but the two counts.
\<close>

theorem get_x509_days_left_floor:
  assumes "strptime E (get_notAfter c) = Inr ta" and "strptime E (get_notBefore c) = Inr tb"
    and "datetime_of ta = Inr a" and "datetime_of tb = Inr b"
  shows "get_x509_days_left E c =
           Inr \<lparr>stats_notAfter = (instant_us a - instant_us (utcnow E)) div 86400000000,
                stats_notBefore = (instant_us b - instant_us (utcnow E)) div 86400000000\<rparr>"
  using assms by (simp add: get_x509_days_left_def days_datetime_sub Let_def)

theorem get_x509_days_left_floor_witness:
  "get_x509_days_left example_env cert_a
     = Inr \<lparr>stats_notAfter = 1660, stats_notBefore = - 1933\<rparr>"
proof -
  let ?ta = "\<lparr>tm_year = 2030, tm_mon = 1, tm_mday = 1, tm_hour = 0, tm_min = 0, tm_sec = 0\<rparr>"
  let ?tb = "\<lparr>tm_year = 2020, tm_mon = 3, tm_mday = 1, tm_hour = 0, tm_min = 0, tm_sec = 0\<rparr>"
  let ?a = "\<lparr>year = 2030, month = 1, day = 1, hour = 0, minute = 0, second = 0, microsecond = 0\<rparr>"
  let ?b = "\<lparr>year = 2020, month = 3, day = 1, hour = 0, minute = 0, second = 0, microsecond = 0\<rparr>"
  have 1: "strptime example_env (get_notAfter cert_a) = Inr ?ta"
    by (simp add: example_env_def example_strptime_def cert_a_def)
  have 2: "strptime example_env (get_notBefore cert_a) = Inr ?tb"
    by (simp add: example_env_def example_strptime_def cert_a_def)
  have 3: "datetime_of ?ta = Inr ?a"
    by (simp add: datetime_of_def datetime_new_def days_in_month_def)
  have 4: "datetime_of ?tb = Inr ?b"
    by (simp add: datetime_of_def datetime_new_def days_in_month_def)
  show ?thesis
    using get_x509_days_left_floor [OF 1 2 3 4]
    by (simp add: example_env_def instant_us_def toordinal_def days_before_year_def
        days_before_month_def is_leap_def)
qed

section \<open>Properties of the policy evaluator\<close>

text \<open>
  C1. Given integer thresholds and, for a present certificate that is not expired, its
  validity window, the evaluator returns a pair \<open>(passed, reason)\<close>: \<open>passed\<close> holds
  exactly when the certificate is present, its expired predicate is false, the expiry
  threshold is below the days until expiry and the start threshold is above the days
  until valid; and the reason is empty exactly when \<open>passed\<close> holds.
\<close>

theorem check_x509_passed_iff:
  assumes "case x of None \<Rightarrow> True
           | Some c \<Rightarrow> has_expired c \<or> get_x509_days_left E c = Inr st"
  shows "\<exists>passed reason.
           check_x509 E x (PInt nb) (PInt na) f = Inr (passed, reason)
           \<and> (passed \<longleftrightarrow> (\<exists>c. x = Some c \<and> \<not> has_expired c
                               \<and> na < stats_notAfter st \<and> nb > stats_notBefore st))
           \<and> (reason = [] \<longleftrightarrow> passed)"
proof (cases x)
  case None
  then show ?thesis by (auto simp: check_x509_def)
next
  case (Some c)
  show ?thesis
  proof (cases "has_expired c")
    case True
    with Some show ?thesis by (auto simp: check_x509_def)
  next
    case False
    with Some assms have "get_x509_days_left E c = Inr st" by simp
    with Some False show ?thesis
      by (auto simp: check_x509_def py_ge_int_def py_le_int_def)
  qed
qed

theorem check_x509_passed_iff_witness:
  "check_x509 example_env (Some cert_a) (PInt 0) (PInt 15) (PBool False) = Inr (True, [])
   \<and> (\<exists>reason. check_x509 example_env None (PInt 0) (PInt 15) (PBool False) = Inr (False, reason)
                \<and> reason \<noteq> [])"
proof -
  let ?st = "\<lparr>stats_notAfter = 1660, stats_notBefore = - 1933\<rparr>"
  have a: "case Some cert_a of None \<Rightarrow> True
           | Some c \<Rightarrow> has_expired c \<or> get_x509_days_left example_env c = Inr ?st"
    using example_days_a by simp
  have n: "case (None :: x509 option) of None \<Rightarrow> True
           | Some c \<Rightarrow> has_expired c \<or> get_x509_days_left example_env c = Inr ?st"
    by simp
  have "\<not> has_expired cert_a" by (simp add: cert_a_def)
  then show ?thesis
    using check_x509_passed_iff [OF a, where nb = 0 and na = 15 and f = "PBool False"]
      check_x509_passed_iff [OF n, where nb = 0 and na = 15 and f = "PBool False"]
    by auto
qed

text \<open>
  Outside the hypothesis of C1: where the window of a present certificate that is not
  expired cannot be computed, the evaluator raises what the calculator raised.
\<close>

lemma check_x509_raises:
  assumes "\<not> has_expired c" and "get_x509_days_left E c = Inl e"
  shows "check_x509 E (Some c) notBefore notAfter f = Inl e"
  using assms by (simp add: check_x509_def)

text \<open>
  C5. A present certificate whose expired predicate is true fails with the reason
  "The certificate is expired", whatever the environment, the thresholds and the flag
  are: the validity window is not consulted, and the rule holds as well where the
  window cannot be computed.
\<close>

theorem check_x509_expired:
  assumes "has_expired c"
  shows "check_x509 E (Some c) notBefore notAfter f = Inr (False, ''The certificate is expired'')"
  using assms by (simp add: check_x509_def)

theorem check_x509_expired_witness:
  "has_expired cert_c \<and> get_x509_days_left example_env cert_c = Inl ValueError
   \<and> check_x509 example_env (Some cert_c) (PInt 0) (PInt 0) (PBool False)
       = Inr (False, ''The certificate is expired'')"
proof -
  have e: "has_expired cert_c" by (simp add: cert_c_def)
  show ?thesis
    using e check_x509_expired [OF e, where E = example_env and notBefore = "PInt 0"
        and notAfter = "PInt 0" and f = "PBool False"]
      example_days_c
    by simp
qed

text \<open>
  What the evaluator answers under the expiry rule: the reason is built from the
  literal "The certificate will expire in less then {0} days" of the source.
\<close>

lemma check_x509_expiry_threshold_reason:
  assumes "\<not> has_expired c" and "get_x509_days_left E c = Inr st" and "na \<ge> stats_notAfter st"
  shows "check_x509 E (Some c) nb (PInt na) f =
           Inr (False, ''The certificate will expire in less then '' @ str_int na @ '' days'')"
  using assms by (simp add: check_x509_def py_ge_int_def)

text \<open>
  C3. The certificate \<open>cert_a\<close> is present and not expired, and the threshold 2000 is
  at least its 1660 days until expiry: the evaluator fails, as the claim says, but the
  reason it returns is spelled "less then" and so is not the reason
  "The certificate will expire in less than 2000 days" of the claim.
\<close>

theorem check_x509_expiry_threshold_message:
  "\<not> has_expired cert_a
   \<and> get_x509_days_left example_env cert_a = Inr \<lparr>stats_notAfter = 1660, stats_notBefore = - 1933\<rparr>
   \<and> (2000 :: int) \<ge> 1660
   \<and> check_x509 example_env (Some cert_a) (PInt 0) (PInt 2000) (PBool False)
       = Inr (False, ''The certificate will expire in less then 2000 days'')
   \<and> check_x509 example_env (Some cert_a) (PInt 0) (PInt 2000) (PBool False)
       \<noteq> Inr (False, ''The certificate will expire in less than 2000 days'')"
proof -
  have 1: "\<not> has_expired cert_a" by (simp add: cert_a_def)
  have 3: "2000 \<ge> stats_notAfter \<lparr>stats_notAfter = 1660, stats_notBefore = - 1933\<rparr>" by simp
  have "check_x509 example_env (Some cert_a) (PInt 0) (PInt 2000) (PBool False)
          = Inr (False, ''The certificate will expire in less then 2000 days'')"
    using check_x509_expiry_threshold_reason [OF 1 example_days_a 3, where nb = "PInt 0"
        and f = "PBool False"]
    by (simp add: str_int_simps)
  with 1 show ?thesis by (simp add: example_days_a)
qed

text \<open>
  What the evaluator answers under the start rule: the first reason is the one the
  specification gives, the second is built from the literal
  "The certificate will be valid in more then {0} days" of the source.
\<close>

lemma check_x509_not_before_reason:
  assumes "\<not> has_expired c" and "get_x509_days_left E c = Inr st"
    and "na < stats_notAfter st" and "nb \<le> stats_notBefore st"
  shows "check_x509 E (Some c) (PInt nb) (PInt na) f =
           Inr (False,
                if nb = 0 \<and> truthy f
                then ''The certificate is not yet valid ('' @ str_int (stats_notBefore st)
                       @ '' days left until it will be valid)''
                else ''The certificate will be valid in more then '' @ str_int nb @ '' days'')"
  using assms by (simp add: check_x509_def py_ge_int_def py_le_int_def py_eq_def)

text \<open>
  C2. The certificate \<open>cert_b\<close> is present, not expired, passes the expiry rule under
  the threshold 15 and has 199 days until it is valid. With the start threshold 0 and
  the flag set, the evaluator fails with the reason of the claim. With the start
  threshold 5 it fails, as the claim says, but the reason it returns is spelled
  "more then" and so is not the reason "The certificate will be valid in more than 5
  days" of the claim.
\<close>

theorem check_x509_not_before_message:
  "\<not> has_expired cert_b
   \<and> get_x509_days_left example_env cert_b = Inr \<lparr>stats_notAfter = 1660, stats_notBefore = 199\<rparr>
   \<and> (15 :: int) < 1660 \<and> (0 :: int) \<le> 199 \<and> (5 :: int) \<le> 199
   \<and> check_x509 example_env (Some cert_b) (PInt 0) (PInt 15) (PBool True)
       = Inr (False, ''The certificate is not yet valid (199 days left until it will be valid)'')
   \<and> check_x509 example_env (Some cert_b) (PInt 5) (PInt 15) (PBool True)
       = Inr (False, ''The certificate will be valid in more then 5 days'')
   \<and> check_x509 example_env (Some cert_b) (PInt 5) (PInt 15) (PBool True)
       \<noteq> Inr (False, ''The certificate will be valid in more than 5 days'')"
proof -
  let ?st = "\<lparr>stats_notAfter = 1660, stats_notBefore = 199\<rparr>"
  have 1: "\<not> has_expired cert_b" by (simp add: cert_b_def)
  have 3: "15 < stats_notAfter ?st" by simp
  have 4: "0 \<le> stats_notBefore ?st" by simp
  have 5: "5 \<le> stats_notBefore ?st" by simp
  have a: "check_x509 example_env (Some cert_b) (PInt 0) (PInt 15) (PBool True)
       = Inr (False, ''The certificate is not yet valid (199 days left until it will be valid)'')"
    using check_x509_not_before_reason [OF 1 example_days_b 3 4, where f = "PBool True"]
    by (simp add: str_int_simps)
  have b: "check_x509 example_env (Some cert_b) (PInt 5) (PInt 15) (PBool True)
       = Inr (False, ''The certificate will be valid in more then 5 days'')"
    using check_x509_not_before_reason [OF 1 example_days_b 3 5, where f = "PBool True"]
    by (simp add: str_int_simps)
  from 1 a b show ?thesis by (simp add: example_days_b)
qed

section \<open>Properties of a single entry\<close>

text \<open>
  C4. A source is set when its value is true in Python's sense (present, not
  \<^verbatim>\<open>None\<close>, not empty). For an entry without a \<^verbatim>\<open>control\<close> key: with neither
  \<^verbatim>\<open>endpoint\<close> nor \<^verbatim>\<open>file\<close> set the entry goes to the Failure bucket with the reason
  "No certificate to be checked", with both set it goes there with the reason
  "Only one certificate per check is allowed". In both cases nothing else of the run
  changes: the trace of loader calls is the same as before, and the outcome is the same
  in every environment.
\<close>

theorem audit_entry_source_conflict:
  assumes "''control'' \<notin> dom td"
  shows "(\<not> truthy (dict_get td ''endpoint'' PNone) \<and> \<not> truthy (dict_get td ''file'' PNone)
            \<longrightarrow> audit_entry E td ret
                  = Inr (ret\<lparr>Failure := Failure ret
                               @ [td(''reason'' \<mapsto> PStr ''No certificate to be checked'')]\<rparr>))
       \<and> (truthy (dict_get td ''endpoint'' PNone) \<and> truthy (dict_get td ''file'' PNone)
            \<longrightarrow> audit_entry E td ret
                  = Inr (ret\<lparr>Failure := Failure ret
                               @ [td(''reason'' \<mapsto> PStr ''Only one certificate per check is allowed'')]\<rparr>))"
  using assms by (simp add: audit_entry_def Let_def)

theorem audit_entry_source_conflict_witness:
  "audit_entry example_env td_neither empty_run
     = Inr (empty_run\<lparr>Failure := [td_neither(''reason'' \<mapsto> PStr ''No certificate to be checked'')]\<rparr>)
   \<and> audit_entry example_env td_both empty_run
     = Inr (empty_run\<lparr>Failure := [td_both(''reason'' \<mapsto> PStr ''Only one certificate per check is allowed'')]\<rparr>)"
proof -
  have 1: "''control'' \<notin> dom td_neither" by (simp add: td_neither_def)
  have 2: "''control'' \<notin> dom td_both" by (simp add: td_both_def)
  have 3: "\<not> truthy (dict_get td_neither ''endpoint'' PNone) \<and> \<not> truthy (dict_get td_neither ''file'' PNone)"
    by (simp add: td_neither_def dict_get_def)
  have 4: "truthy (dict_get td_both ''endpoint'' PNone) \<and> truthy (dict_get td_both ''file'' PNone)"
    by (simp add: td_both_def dict_get_def)
  show ?thesis
    using audit_entry_source_conflict [OF 1, where E = example_env and ret = empty_run]
      audit_entry_source_conflict [OF 2, where E = example_env and ret = empty_run] 3 4
    by (simp add: empty_run_def)
qed

text \<open>
  The record that the loop over the tags meets for an entry keeps the keys of the
  entry's \<^verbatim>\<open>data\<close> dictionary: a \<^verbatim>\<open>control\<close> key there is a \<^verbatim>\<open>control\<close> key of the
  record.
\<close>

lemma controlled_entry_record:
  assumes "ad_data ad = Some a" and "h a ''tag'' = Some t" and "''control'' \<in> dom (h a)"
  shows "\<exists>fd. get_tags_loop h [(k, ad)] [] = Inr (h(a := (h a)(''tag'' := None)), [(t, [fd])])
              \<and> ''control'' \<in> dom fd"
  using assms by (auto simp: Let_def)

text \<open>
  C10. An entry whose record has a \<^verbatim>\<open>control\<close> key is appended to the Controlled bucket
  as it is, whatever its sources are: the Failure bucket and the trace of loader calls
  stay as they were, and the record gets no \<^verbatim>\<open>reason\<close> key.
\<close>

theorem audit_entry_controlled:
  assumes "''control'' \<in> dom td"
  shows "audit_entry E td ret = Inr (ret\<lparr>Controlled := Controlled ret @ [td]\<rparr>)"
  using assms by (simp add: audit_entry_def)

theorem audit_entry_controlled_witness:
  "truthy (dict_get td_controlled ''endpoint'' PNone) \<and> truthy (dict_get td_controlled ''file'' PNone)
   \<and> audit_entry example_env td_controlled empty_run = Inr (empty_run\<lparr>Controlled := [td_controlled]\<rparr>)"
proof -
  have 1: "''control'' \<in> dom td_controlled" by (simp add: td_controlled_def)
  show ?thesis
    using audit_entry_controlled [OF 1, where E = example_env and ret = empty_run]
    by (simp add: empty_run_def td_controlled_def dict_get_def)
qed

section \<open>Properties of the loader\<close>

lemma load_x509_from_endpoint_fails:
  "endpoint_fails E server port \<Longrightarrow> load_x509_from_endpoint E server port = ([Connect server port], Inr None)"
  by (auto simp: endpoint_fails_def load_x509_from_endpoint_def split: sum.splits)

lemma load_x509_from_file_fails:
  "file_fails E path \<Longrightarrow> load_x509_from_file E path = ([OpenFile path], Inr None)"
  by (auto simp: file_fails_def load_x509_from_file_def split: sum.splits)

text \<open>
  What the loaders do not catch: a \<^verbatim>\<open>read()\<close> that raises after the file was opened.
\<close>

lemma load_x509_from_file_read_raises:
  assumes "open_file E path = Inr (Inl e)"
  shows "load_x509_from_file E path = ([OpenFile path], Inl e)"
  using assms by (simp add: load_x509_from_file_def)

text \<open>
  C7. For an entry with exactly one source whose acquisition fails, the loader returns
  the absent certificate and raises nothing, the entry goes to the Failure bucket with
  the reason "No certificate to be checked", the same for an endpoint and for a file,
  and the loop goes on with the remaining entries.
\<close>

theorem acquisition_failure:
  assumes "''control'' \<notin> dom td"
    and "endpoint = dict_get td ''endpoint'' PNone"
    and "file = dict_get td ''file'' PNone"
    and "port = dict_get td ''port'' (PInt 443)"
    and "(truthy endpoint \<and> \<not> truthy file \<and> endpoint_fails E endpoint port)
         \<or> (\<not> truthy endpoint \<and> truthy file \<and> file_fails E file)"
  shows "snd (if truthy endpoint then load_x509 E endpoint port False
              else load_x509 E file (PInt 443) True) = Inr None
       \<and> audit_tag_data E (td # rest) ret
           = audit_tag_data E rest
               (ret\<lparr>Failure := Failure ret @ [td(''reason'' \<mapsto> PStr ''No certificate to be checked'')],
                    trace := trace ret @ [if truthy endpoint then Connect endpoint port
                                          else OpenFile file]\<rparr>)"
  using assms
  by (auto simp: audit_entry_def Let_def load_x509_def check_x509_def
      load_x509_from_endpoint_fails load_x509_from_file_fails)

theorem acquisition_failure_witness:
  "audit_tag_data example_env [td_unreachable, td_missing] empty_run
     = Inr \<lparr>Success = [],
            Failure = [td_unreachable(''reason'' \<mapsto> PStr ''No certificate to be checked''),
                       td_missing(''reason'' \<mapsto> PStr ''No certificate to be checked'')],
            Controlled = [],
            trace = [Connect (PStr ''unreachable.example.com'') (PInt 8443),
                     OpenFile (PStr ''/nonexistent.pem'')]\<rparr>"
proof -
  have u: "''control'' \<notin> dom td_unreachable"
    "dict_get td_unreachable ''endpoint'' PNone = PStr ''unreachable.example.com''"
    "dict_get td_unreachable ''file'' PNone = PNone"
    "dict_get td_unreachable ''port'' (PInt 443) = PInt 8443"
    by (simp_all add: td_unreachable_def dict_get_def)
  have m: "''control'' \<notin> dom td_missing"
    "dict_get td_missing ''endpoint'' PNone = PNone"
    "dict_get td_missing ''file'' PNone = PStr ''/nonexistent.pem''"
    "dict_get td_missing ''port'' (PInt 443) = PInt 443"
    by (simp_all add: td_missing_def dict_get_def)
  have fu: "endpoint_fails example_env (PStr ''unreachable.example.com'') (PInt 8443)"
    by (simp add: endpoint_fails_def example_env_def is_Exception_def)
  have fm: "file_fails example_env (PStr ''/nonexistent.pem'')"
    by (simp add: file_fails_def example_env_def is_IOError_def)
  show ?thesis
    using acquisition_failure [OF u(1) u(2)[symmetric] u(3)[symmetric] u(4)[symmetric],
        where E = example_env and ret = empty_run and rest = "[td_missing]"]
      acquisition_failure [OF m(1) m(2)[symmetric] m(3)[symmetric] m(4)[symmetric],
        where E = example_env and rest = "[]"] fu fm
    by (simp add: empty_run_def)
qed

section \<open>The store and the records of the tags\<close>

lemma section_of_merge_yaml: "section_of (merge_yaml ret d) = section_of ret @ section_of d"
  by (simp add: merge_yaml_def section_of_def Let_def split: option.splits)

lemma section_of_foldl:
  "section_of (foldl merge_yaml ret dl) = section_of ret @ concat (map section_of dl)"
  by (induction dl arbitrary: ret) (simp_all add: section_of_merge_yaml)

lemma get_tags_merged:
  "get_tags h (foldl merge_yaml Map.empty dl) = get_tags_loop h (entries_of dl) []"
proof -
  have "section_of (foldl merge_yaml Map.empty dl) = entries_of dl"
    by (simp add: section_of_foldl entries_of_def) (simp add: section_of_def)
  then show ?thesis by (simp add: get_tags_def section_of_def)
qed

text \<open>
  The loop over the entries raises no \<^verbatim>\<open>KeyError\<close> when every entry has a \<^verbatim>\<open>data\<close>
  dictionary of its own that holds a \<^verbatim>\<open>tag\<close>; and when it returns, this was the case.
\<close>

lemma get_tags_loop_total:
  assumes "distinct (addrs_of es)" and "length (addrs_of es) = length es"
    and "\<forall>a \<in> set (addrs_of es). ''tag'' \<in> dom (h a)"
  shows "\<exists>h' tgs. get_tags_loop h es ret = Inr (h', tgs)"
  using assms
proof (induction es arbitrary: h ret)
  case Nil
  then show ?case by simp
next
  case (Cons e es)
  obtain k ad where e: "e = (k, ad)" by (cases e)
  have le: "length (addrs_of es) \<le> length es" for es :: "(string \<times> audit_data) list"
    by (induction es rule: addrs_of.induct) (auto split: option.splits)
  from Cons.prems(2) e le [of es] obtain a where a: "ad_data ad = Some a"
    by (cases "ad_data ad") auto
  with Cons.prems e obtain t where t: "h a ''tag'' = Some t" by auto
  define h1 where "h1 = h(a := (h a)(''tag'' := None))"
  have "\<forall>b \<in> set (addrs_of es). ''tag'' \<in> dom (h1 b)"
    using Cons.prems(1,3) e a by (auto simp: h1_def)
  moreover have "distinct (addrs_of es)" "length (addrs_of es) = length es"
    using Cons.prems(1,2) e a by auto
  ultimately have "\<exists>h' tgs. get_tags_loop h1 es r = Inr (h', tgs)" for r
    by (intro Cons.IH)
  then show ?case by (simp add: e a t Let_def h1_def)
qed

lemma get_tags_loop_heap:
  assumes "get_tags_loop h es ret = Inr (h', tgs)"
  shows "distinct (addrs_of es) \<and> (\<forall>a \<in> set (addrs_of es). ''tag'' \<in> dom (h a))
         \<and> (\<forall>a. h' a = (if a \<in> set (addrs_of es) then (h a)(''tag'' := None) else h a))"
  using assms
proof (induction es arbitrary: h ret)
  case Nil
  then show ?case by simp
next
  case (Cons e es)
  obtain k ad where e: "e = (k, ad)" by (cases e)
  from Cons.prems e obtain a t where a: "ad_data ad = Some a" and t: "h a ''tag'' = Some t"
    by (auto split: option.splits)
  define h1 where "h1 = h(a := (h a)(''tag'' := None))"
  from Cons.prems e a t obtain r1 where "get_tags_loop h1 es r1 = Inr (h', tgs)"
    by (auto simp: Let_def h1_def)
  from Cons.IH [OF this]
  have d: "distinct (addrs_of es)"
    and tg: "\<forall>b \<in> set (addrs_of es). ''tag'' \<in> dom (h1 b)"
    and h': "\<forall>b. h' b = (if b \<in> set (addrs_of es) then (h1 b)(''tag'' := None) else h1 b)"
    by auto
  have na: "a \<notin> set (addrs_of es)"
    using tg by (auto simp: h1_def)
  have tg': "\<forall>b \<in> set (addrs_of es). ''tag'' \<in> dom (h b)"
  proof
    fix b assume b: "b \<in> set (addrs_of es)"
    with na have "b \<noteq> a" by auto
    with tg b show "''tag'' \<in> dom (h b)" by (auto simp: h1_def)
  qed
  have fin: "\<forall>b. h' b = (if b \<in> set (a # addrs_of es) then (h b)(''tag'' := None) else h b)"
    using h' na by (auto simp: h1_def)
  show ?case
    using d tg' fin na t by (simp add: e a) blast
qed

lemma tags_append_all_records:
  "all_records P tgs \<Longrightarrow> P fd \<Longrightarrow> all_records P (tags_append t fd tgs)"
  by (induction tgs) (auto simp: all_records_def)

lemma get_tags_loop_has_tag:
  "get_tags_loop h es ret = Inr (h', tgs) \<Longrightarrow> all_records (has_key ''tag'') ret
     \<Longrightarrow> all_records (has_key ''tag'') tgs"
proof (induction es arbitrary: h ret)
  case Nil
  then show ?case by simp
next
  case (Cons e es)
  obtain k ad where e: "e = (k, ad)" by (cases e)
  from Cons.prems(1) e obtain a t where a: "ad_data ad = Some a" and t: "h a ''tag'' = Some t"
    by (auto split: option.splits)
  define td where "td = (h a)(''tag'' := None)"
  define fd where "fd = ((td(''tag'' \<mapsto> t, ''module'' \<mapsto> PStr ''openssl'') ++ ad_other ad)(''data'' := None))"
  have "has_key ''tag'' fd" by (simp add: fd_def has_key_def)
  with Cons.prems(2) have "all_records (has_key ''tag'') (tags_append t fd ret)"
    by (simp add: tags_append_all_records)
  moreover from Cons.prems(1) e a t
  have "get_tags_loop (h(a := td)) es (tags_append t fd ret) = Inr (h', tgs)"
    by (simp add: Let_def td_def fd_def)
  ultimately show ?case by (rule Cons.IH [rotated])
qed

section \<open>Invariants of the loop over the entries\<close>

lemma audit_entry_cases:
  assumes "audit_entry E td ret = Inr ret'"
  shows "(Success ret' = Success ret @ [td] \<and> Failure ret' = Failure ret
            \<and> Controlled ret' = Controlled ret)
       \<or> (\<exists>r. Failure ret' = Failure ret @ [td(''reason'' \<mapsto> PStr r)]
            \<and> Success ret' = Success ret \<and> Controlled ret' = Controlled ret)
       \<or> (Controlled ret' = Controlled ret @ [td] \<and> Success ret' = Success ret
            \<and> Failure ret' = Failure ret)"
proof (cases "''control'' \<in> dom td")
  case True
  with assms show ?thesis by (auto simp: audit_entry_def)
next
  case False
  with assms show ?thesis
    by (auto simp: audit_entry_def Let_def split: prod.splits sum.splits if_splits)
qed

lemma audit_entry_run_all:
  assumes "audit_entry E td ret = Inr ret'" and "run_all P ret" and "P td"
    and "\<And>r. P (td(''reason'' \<mapsto> PStr r))"
  shows "run_all P ret'"
  using audit_entry_cases [OF assms(1)] assms(2-4)
  by (auto simp: run_all_def)

lemma audit_entry_reason:
  assumes "audit_entry E td ret = Inr ret'" and "\<forall>d \<in> set (Failure ret). has_key ''reason'' d"
  shows "\<forall>d \<in> set (Failure ret'). has_key ''reason'' d"
  using audit_entry_cases [OF assms(1)] assms(2)
  by (auto simp: has_key_def)

lemma audit_tag_data_run_all:
  "audit_tag_data E tds ret = Inr ret' \<Longrightarrow> run_all (has_key ''tag'') ret
     \<Longrightarrow> \<forall>d \<in> set tds. has_key ''tag'' d \<Longrightarrow> run_all (has_key ''tag'') ret'"
proof (induction tds arbitrary: ret)
  case Nil
  then show ?case by simp
next
  case (Cons td tds)
  from Cons.prems(1) obtain r1 where 1: "audit_entry E td ret = Inr r1"
    and 2: "audit_tag_data E tds r1 = Inr ret'"
    by (auto split: sum.splits)
  have "has_key ''tag'' td" using Cons.prems(3) by simp
  moreover have "\<And>r. has_key ''tag'' (td(''reason'' \<mapsto> PStr r))"
    using \<open>has_key ''tag'' td\<close> by (simp add: has_key_def)
  ultimately have "run_all (has_key ''tag'') r1"
    using Cons.prems(2) by (intro audit_entry_run_all [OF 1])
  moreover have "\<forall>d \<in> set tds. has_key ''tag'' d" using Cons.prems(3) by simp
  ultimately show ?case using 2 by (intro Cons.IH)
qed

lemma audit_tag_data_reason:
  "audit_tag_data E tds ret = Inr ret' \<Longrightarrow> \<forall>d \<in> set (Failure ret). has_key ''reason'' d
     \<Longrightarrow> \<forall>d \<in> set (Failure ret'). has_key ''reason'' d"
proof (induction tds arbitrary: ret)
  case Nil
  then show ?case by simp
next
  case (Cons td tds)
  from Cons.prems(1) obtain r1 where 1: "audit_entry E td ret = Inr r1"
    and 2: "audit_tag_data E tds r1 = Inr ret'"
    by (auto split: sum.splits)
  from audit_entry_reason [OF 1 Cons.prems(2)] 2 show ?case by (rule Cons.IH [rotated])
qed

lemma audit_tags_run_all:
  "audit_tags E pat tgs ret = Inr ret' \<Longrightarrow> run_all (has_key ''tag'') ret
     \<Longrightarrow> all_records (has_key ''tag'') tgs \<Longrightarrow> run_all (has_key ''tag'') ret'"
proof (induction tgs arbitrary: ret)
  case Nil
  then show ?case by simp
next
  case (Cons p tgs)
  obtain t tds where p: "p = (t, tds)" by (cases p)
  from Cons.prems(3) p have tds: "\<forall>d \<in> set tds. has_key ''tag'' d" and rest: "all_records (has_key ''tag'') tgs"
    by (auto simp: all_records_def list_all_iff)
  from Cons.prems(1) p obtain m where m: "fnmatch E t pat = Inr m"
    by (auto split: sum.splits)
  show ?case
  proof (cases m)
    case True
    with Cons.prems(1) p m obtain r1 where 1: "audit_tag_data E tds ret = Inr r1"
      and 2: "audit_tags E pat tgs r1 = Inr ret'"
      by (auto split: sum.splits)
    from 2 audit_tag_data_run_all [OF 1 Cons.prems(2) tds] rest show ?thesis
      by (rule Cons.IH)
  next
    case False
    with Cons.prems(1) p m have "audit_tags E pat tgs ret = Inr ret'" by simp
    from this Cons.prems(2) rest show ?thesis by (rule Cons.IH)
  qed
qed

lemma audit_tags_reason:
  "audit_tags E pat tgs ret = Inr ret' \<Longrightarrow> \<forall>d \<in> set (Failure ret). has_key ''reason'' d
     \<Longrightarrow> \<forall>d \<in> set (Failure ret'). has_key ''reason'' d"
proof (induction tgs arbitrary: ret)
  case Nil
  then show ?case by simp
next
  case (Cons p tgs)
  obtain t tds where p: "p = (t, tds)" by (cases p)
  from Cons.prems(1) p obtain m where m: "fnmatch E t pat = Inr m"
    by (auto split: sum.splits)
  show ?case
  proof (cases m)
    case True
    with Cons.prems(1) p m obtain r1 where 1: "audit_tag_data E tds ret = Inr r1"
      and 2: "audit_tags E pat tgs r1 = Inr ret'"
      by (auto split: sum.splits)
    from audit_tag_data_reason [OF 1 Cons.prems(2)] 2 show ?thesis
      by (rule Cons.IH [rotated])
  next
    case False
    with Cons.prems(1) p m have "audit_tags E pat tgs ret = Inr ret'" by simp
    from this Cons.prems(2) show ?thesis by (rule Cons.IH)
  qed
qed

lemma audit_run_has_tag:
  assumes "audit_run E h dl pat = Inr (h', ret)"
  shows "run_all (has_key ''tag'') ret"
proof -
  from assms obtain tgs where g: "get_tags_loop h (entries_of dl) [] = Inr (h', tgs)"
    and a: "audit_tags E pat tgs \<lparr>Success = [], Failure = [], Controlled = [], trace = []\<rparr> = Inr ret"
    by (auto simp: audit_run_def get_tags_merged Let_def split: sum.splits prod.splits)
  from g have t: "all_records (has_key ''tag'') tgs"
    by (rule get_tags_loop_has_tag) (simp add: all_records_def)
  show ?thesis
    by (rule audit_tags_run_all [OF a _ t]) (simp add: run_all_def)
qed

lemma audit_run_reason:
  assumes "audit_run E h dl pat = Inr (h', ret)"
  shows "\<forall>td \<in> set (Failure ret). has_key ''reason'' td"
proof -
  from assms obtain tgs where
    a: "audit_tags E pat tgs \<lparr>Success = [], Failure = [], Controlled = [], trace = []\<rparr> = Inr ret"
    by (auto simp: audit_run_def Let_def split: sum.splits prod.splits)
  then show ?thesis by (rule audit_tags_reason) simp
qed

lemma audit_run_heap:
  assumes "audit_run E h dl pat = Inr (h', ret)"
  shows "distinct (entry_addrs dl) \<and> (\<forall>a \<in> set (entry_addrs dl). ''tag'' \<in> dom (h a))
         \<and> (\<forall>a. h' a = (if a \<in> set (entry_addrs dl) then (h a)(''tag'' := None) else h a))"
proof -
  from assms obtain tgs where g: "get_tags_loop h (entries_of dl) [] = Inr (h', tgs)"
    by (auto simp: audit_run_def get_tags_merged Let_def split: sum.splits prod.splits)
  from get_tags_loop_heap [OF g] show ?thesis by (simp add: entry_addrs_def)
qed

section \<open>The short report\<close>

lemma py_eq_py_key: "py_eq v w \<longleftrightarrow> py_key v = py_key w"
  by (cases v; cases w) (auto simp: py_eq_def py_key_def)

lemma seen_pair: "(\<exists>(t', d') \<in> S. py_eq t' t \<and> py_eq d' d) \<longleftrightarrow> pair_key (t, d) \<in> pair_key ` S"
  by (force simp: py_eq_py_key pair_key_def image_iff)

lemma seen_triple:
  "(\<exists>(t', d', c') \<in> S. py_eq t' t \<and> py_eq d' d \<and> py_eq c' c) \<longleftrightarrow> triple_key (t, d, c) \<in> triple_key ` S"
  by (force simp: py_eq_py_key triple_key_def image_iff)

lemma filter_unseen:
  "filter (\<lambda>y. f y \<notin> f ` insert x S) xs = filter (\<lambda>y. f y \<noteq> f x) (filter (\<lambda>y. f y \<notin> f ` S) xs)"
  by (induction xs) auto

lemma collapse_first_seen:
  assumes "\<forall>td \<in> set tds. has_key ''tag'' td"
  shows "collapse tds S acc =
           Inr (acc @ map brief (first_seen pair_key
                  (filter (\<lambda>k. pair_key k \<notin> pair_key ` S) (map tag_description tds))))"
  using assms
proof (induction tds arbitrary: S acc)
  case Nil
  then show ?case by simp
next
  case (Cons td tds)
  from Cons.prems obtain t where t: "td ''tag'' = Some t" by (auto simp: has_key_def)
  define d where "d = dict_get td ''description'' PNone"
  let ?ks = "map tag_description tds"
  have k: "tag_description td = (t, d)" by (simp add: tag_description_def dict_get_def t d_def)
  have rest: "\<forall>td \<in> set tds. has_key ''tag'' td" using Cons.prems by simp
  show ?case
  proof (cases "pair_key (t, d) \<in> pair_key ` S")
    case True
    then have "\<exists>(t', d') \<in> S. py_eq t' t \<and> py_eq d' d" by (simp only: seen_pair)
    then have "collapse (td # tds) S acc = collapse tds S acc"
      by (auto simp: t d_def [symmetric])
    with True show ?thesis by (simp add: Cons.IH [OF rest] k)
  next
    case False
    then have "\<not> (\<exists>(t', d') \<in> S. py_eq t' t \<and> py_eq d' d)" unfolding seen_pair .
    then have "collapse (td # tds) S acc = collapse tds (insert (t, d) S) (acc @ [Brief t d])"
      by (simp add: t d_def [symmetric])
    also have "\<dots> = Inr ((acc @ [Brief t d]) @ map brief (first_seen pair_key
                  (filter (\<lambda>k. pair_key k \<notin> pair_key ` insert (t, d) S) ?ks)))"
      by (rule Cons.IH [OF rest])
    also have "filter (\<lambda>k. pair_key k \<notin> pair_key ` insert (t, d) S) ?ks
                 = filter (\<lambda>y. pair_key y \<noteq> pair_key (t, d))
                     (filter (\<lambda>k. pair_key k \<notin> pair_key ` S) ?ks)"
      by (rule filter_unseen)
    finally show ?thesis
      using False by (simp add: k brief_def del: filter_filter)
  qed
qed

lemma collapse_controlled_first_seen:
  assumes "\<forall>td \<in> set tds. has_key ''tag'' td"
  shows "collapse_controlled tds S acc =
           Inr (acc @ map brief_control (first_seen triple_key
                  (filter (\<lambda>k. triple_key k \<notin> triple_key ` S) (map tag_description_control tds))))"
  using assms
proof (induction tds arbitrary: S acc)
  case Nil
  then show ?case by simp
next
  case (Cons td tds)
  from Cons.prems obtain t where t: "td ''tag'' = Some t" by (auto simp: has_key_def)
  define d where "d = dict_get td ''description'' PNone"
  define c where "c = dict_get td ''control'' (PStr [])"
  let ?ks = "map tag_description_control tds"
  have k: "tag_description_control td = (t, d, c)"
    by (simp add: tag_description_control_def dict_get_def t d_def c_def)
  have rest: "\<forall>td \<in> set tds. has_key ''tag'' td" using Cons.prems by simp
  show ?case
  proof (cases "triple_key (t, d, c) \<in> triple_key ` S")
    case True
    then have "\<exists>(t', d', c') \<in> S. py_eq t' t \<and> py_eq d' d \<and> py_eq c' c"
      by (simp only: seen_triple)
    then have "collapse_controlled (td # tds) S acc = collapse_controlled tds S acc"
      by (auto simp: t d_def [symmetric] c_def [symmetric])
    with True show ?thesis by (simp add: Cons.IH [OF rest] k)
  next
    case False
    then have "\<not> (\<exists>(t', d', c') \<in> S. py_eq t' t \<and> py_eq d' d \<and> py_eq c' c)"
      unfolding seen_triple .
    then have "collapse_controlled (td # tds) S acc
                 = collapse_controlled tds (insert (t, d, c) S) (acc @ [BriefControl t d c])"
      by (simp add: t d_def [symmetric] c_def [symmetric])
    also have "\<dots> = Inr ((acc @ [BriefControl t d c]) @ map brief_control (first_seen triple_key
                  (filter (\<lambda>k. triple_key k \<notin> triple_key ` insert (t, d, c) S) ?ks)))"
      by (rule Cons.IH [OF rest])
    also have "filter (\<lambda>k. triple_key k \<notin> triple_key ` insert (t, d, c) S) ?ks
                 = filter (\<lambda>y. triple_key y \<noteq> triple_key (t, d, c))
                     (filter (\<lambda>k. triple_key k \<notin> triple_key ` S) ?ks)"
      by (rule filter_unseen)
    finally show ?thesis
      using False by (simp add: k brief_control_def del: filter_filter)
  qed
qed

lemma set_first_seen: "set (first_seen f xs) \<subseteq> set xs"
  by (induction f xs rule: first_seen.induct) auto

lemma image_first_seen: "f ` set (first_seen f xs) = f ` set xs"
proof (induction f xs rule: first_seen.induct)
  case (1 f)
  then show ?case by simp
next
  case (2 f x xs)
  have "f ` set (x # xs) = insert (f x) (f ` set (filter (\<lambda>y. f y \<noteq> f x) xs))"
    by auto
  with 2 show ?case by simp
qed

lemma distinct_first_seen: "distinct (map f (first_seen f xs))"
proof (induction f xs rule: first_seen.induct)
  case (1 f)
  then show ?case by simp
next
  case (2 f x xs)
  have "f x \<notin> f ` set (first_seen f (filter (\<lambda>y. f y \<noteq> f x) xs))"
    using set_first_seen [of f "filter (\<lambda>y. f y \<noteq> f x) xs"] by auto
  with 2 show ?case by simp
qed

lemma subseq_first_seen: "subseq (first_seen f xs) xs"
proof (induction f xs rule: first_seen.induct)
  case (1 f)
  then show ?case by simp
next
  case (2 f x xs)
  have "subseq (filter (\<lambda>y. f y \<noteq> f x) xs) xs" by simp
  with 2 have "subseq (first_seen f (filter (\<lambda>y. f y \<noteq> f x) xs)) xs"
    by (rule subseq_order.trans)
  then show ?case by simp
qed

lemma first_seen_Nil_iff: "first_seen f xs = [] \<longleftrightarrow> xs = []"
  by (cases xs) auto

lemma audit_report_brief:
  assumes "run_all (has_key ''tag'') ret"
  shows "audit_report False ret =
           Inr (pop_empty_controlled
                  [''Success'' \<mapsto> map brief (first_seen pair_key (map tag_description (Success ret))),
                   ''Failure'' \<mapsto> map brief (first_seen pair_key (map tag_description (Failure ret))),
                   ''Controlled'' \<mapsto> map brief_control (first_seen triple_key
                                         (map tag_description_control (Controlled ret)))])"
proof -
  from assms have s: "\<forall>td \<in> set (Success ret). has_key ''tag'' td"
    and f: "\<forall>td \<in> set (Failure ret). has_key ''tag'' td"
    and c: "\<forall>td \<in> set (Controlled ret). has_key ''tag'' td"
    by (simp_all add: run_all_def)
  show ?thesis
    by (simp add: audit_report_def collapse_first_seen [OF s] collapse_first_seen [OF f]
        collapse_controlled_first_seen [OF c])
qed

lemma example_env_simps:
  "fnmatch example_env (PStr s) ''*'' = Inr True"
  "get_server_certificate example_env (PStr ''www.example.com'') (PInt 443) = Inr ''PEM-A''"
  "get_server_certificate example_env (PStr ''unreachable.example.com'') p = Inl SocketError"
  "open_file example_env (PStr ''/nonexistent.pem'') = Inl IOError"
  "load_certificate example_env ''PEM-A'' = Inr cert_a"
  "has_expired cert_a = False"
  by (simp_all add: example_env_def cert_a_def)

lemma example_run:
  "\<exists>h' ret. audit_run example_env example_heap example_data ''*'' = Inr (h', ret)
     \<and> map tag_description (Success ret) = [(PStr ''CERT-001'', PStr ''example certificate'')]
     \<and> map tag_description (Failure ret) = [(PStr ''CERT-002'', PStr ''backend certificate''),
                                            (PStr ''CERT-002'', PStr ''backend certificate'')]
     \<and> Controlled ret = []"
  by (simp add: audit_run_def example_data_def example_heap_def merge_yaml_def get_tags_def Let_def
      py_eq_def audit_entry_def dict_get_def load_x509_def load_x509_from_endpoint_def
      load_x509_from_file_def is_Exception_def is_IOError_def is_CryptoError_def
      check_x509_def example_days_a py_ge_int_def py_le_int_def tag_description_def
      example_env_simps)

text \<open>
  C8. When the loop over the entries ends with the buckets \<open>ret\<close>, the run with
  \<^verbatim>\<open>verbose = False\<close> returns, and so does the verbose one, which reports the buckets
  as they are. In the short report the Success and the Failure bucket hold one
  \<^verbatim>\<open>{tag: description}\<close> for each pair of the bucket, the first one seen of equal
  pairs, in the order of the bucket; the Controlled bucket holds one
  \<^verbatim>\<open>{tag: {description, control}}\<close> for each triple in the same way, and the key
  \<^verbatim>\<open>Controlled\<close> is absent from the result when no entry was controlled. No two elements
  of a reported bucket are equal.
\<close>

theorem audit_brief_report:
  assumes "audit_run E h data_list pat = Inr (h', ret)"
  shows "\<exists>res resv.
           audit E h data_list pat False = Inr (h', res, trace ret)
         \<and> audit E h data_list pat True = Inr (h', resv, trace ret)
         \<and> resv ''Success'' = Some (map Full (Success ret))
         \<and> resv ''Failure'' = Some (map Full (Failure ret))
         \<and> res ''Success'' = Some (map brief (first_seen pair_key (map tag_description (Success ret))))
         \<and> res ''Failure'' = Some (map brief (first_seen pair_key (map tag_description (Failure ret))))
         \<and> res ''Controlled'' =
             (if Controlled ret = [] then None
              else Some (map brief_control (first_seen triple_key
                           (map tag_description_control (Controlled ret)))))
         \<and> distinct (map pair_key (first_seen pair_key (map tag_description (Success ret))))
         \<and> distinct (map pair_key (first_seen pair_key (map tag_description (Failure ret))))
         \<and> distinct (map triple_key (first_seen triple_key
                        (map tag_description_control (Controlled ret))))"
proof -
  have "run_all (has_key ''tag'') ret" using assms by (rule audit_run_has_tag)
  then have b: "audit_report False ret =
           Inr (pop_empty_controlled
                  [''Success'' \<mapsto> map brief (first_seen pair_key (map tag_description (Success ret))),
                   ''Failure'' \<mapsto> map brief (first_seen pair_key (map tag_description (Failure ret))),
                   ''Controlled'' \<mapsto> map brief_control (first_seen triple_key
                                         (map tag_description_control (Controlled ret)))])"
    by (rule audit_report_brief)
  show ?thesis
    using assms b
    by (simp add: audit_def audit_report_def pop_empty_controlled_def distinct_first_seen
        first_seen_Nil_iff)
qed

theorem audit_brief_report_witness:
  "case audit example_env example_heap example_data ''*'' False of
     Inl e \<Rightarrow> False
   | Inr (h', res, tr) \<Rightarrow>
       res ''Success'' = Some [Brief (PStr ''CERT-001'') (PStr ''example certificate'')]
       \<and> res ''Failure'' = Some [Brief (PStr ''CERT-002'') (PStr ''backend certificate'')]
       \<and> res ''Controlled'' = None"
proof -
  from example_run obtain h' ret where
    r: "audit_run example_env example_heap example_data ''*'' = Inr (h', ret)"
    and s: "map tag_description (Success ret) = [(PStr ''CERT-001'', PStr ''example certificate'')]"
    and f: "map tag_description (Failure ret) = [(PStr ''CERT-002'', PStr ''backend certificate''),
                                                (PStr ''CERT-002'', PStr ''backend certificate'')]"
    and c: "Controlled ret = []"
    by auto
  from audit_brief_report [OF r] show ?thesis
    by (auto simp: s f c brief_def)
qed

section \<open>The effect on the data of the caller\<close>

text \<open>
  C9. A run that returns has popped the key \<^verbatim>\<open>tag\<close> from the \<^verbatim>\<open>data\<close> dictionary of
  every entry of \<^verbatim>\<open>data_list\<close>, in the caller's store, and has changed nothing else
  there; so the store differs from the one before as soon as there is an entry. Every
  record of the Failure bucket carries a \<^verbatim>\<open>reason\<close> key, and the verbose result reports
  these records.
\<close>

theorem audit_mutates_data_list:
  assumes "audit E h data_list pat verbose = Inr (h', res, tr)"
  shows "(\<forall>a \<in> set (entry_addrs data_list). ''tag'' \<in> dom (h a) \<and> h' a = (h a)(''tag'' := None))
       \<and> (\<forall>a. a \<notin> set (entry_addrs data_list) \<longrightarrow> h' a = h a)
       \<and> (entry_addrs data_list \<noteq> [] \<longrightarrow> h' \<noteq> h)
       \<and> (\<exists>ret. audit_run E h data_list pat = Inr (h', ret)
                \<and> (\<forall>td \<in> set (Failure ret). ''reason'' \<in> dom td)
                \<and> (verbose \<longrightarrow> res ''Failure'' = Some (map Full (Failure ret))))"
proof -
  from assms obtain ret where r: "audit_run E h data_list pat = Inr (h', ret)"
    and rep: "audit_report verbose ret = Inr res"
    by (auto simp: audit_def split: sum.splits prod.splits)
  from audit_run_heap [OF r]
  have tg: "\<forall>a \<in> set (entry_addrs data_list). ''tag'' \<in> dom (h a)"
    and h': "\<forall>a. h' a = (if a \<in> set (entry_addrs data_list) then (h a)(''tag'' := None) else h a)"
    by auto
  have 1: "\<forall>a \<in> set (entry_addrs data_list). ''tag'' \<in> dom (h a) \<and> h' a = (h a)(''tag'' := None)"
    using tg h' by simp
  have 2: "\<forall>a. a \<notin> set (entry_addrs data_list) \<longrightarrow> h' a = h a"
    using h' by simp
  have 3: "entry_addrs data_list \<noteq> [] \<longrightarrow> h' \<noteq> h"
  proof
    assume "entry_addrs data_list \<noteq> []"
    then obtain a where a: "a \<in> set (entry_addrs data_list)" by (cases "entry_addrs data_list") auto
    with 1 have "h' a ''tag'' = None" and "h a ''tag'' \<noteq> None" by auto
    then show "h' \<noteq> h" by auto
  qed
  have 4: "\<forall>td \<in> set (Failure ret). ''reason'' \<in> dom td"
    using audit_run_reason [OF r] by (simp add: has_key_def)
  have 5: "verbose \<longrightarrow> res ''Failure'' = Some (map Full (Failure ret))"
    using rep by (auto simp: audit_report_def pop_empty_controlled_def)
  from 1 2 3 4 5 r show ?thesis by blast
qed

theorem audit_mutates_data_list_witness:
  "case audit example_env example_heap example_data ''*'' True of
     Inl e \<Rightarrow> False
   | Inr (h', res, tr) \<Rightarrow>
       example_heap 0 ''tag'' = Some (PStr ''CERT-001'') \<and> h' 0 ''tag'' = None
       \<and> h' 0 ''endpoint'' = Some (PStr ''www.example.com'') \<and> h' \<noteq> example_heap"
proof -
  from example_run obtain h' ret where
    r: "audit_run example_env example_heap example_data ''*'' = Inr (h', ret)"
    by auto
  obtain res where a: "audit example_env example_heap example_data ''*'' True = Inr (h', res, trace ret)"
    using r by (simp add: audit_def audit_report_def)
  have e: "entry_addrs example_data = [0, 1, 2]"
    by (simp add: entry_addrs_def entries_of_def section_of_def example_data_def)
  from audit_mutates_data_list [OF a] show ?thesis
    by (simp add: a e) (simp add: example_heap_def)
qed

end
